theory Spec2Isabelle
  imports Main "HOL-Library.Char_ord" "HOL-Library.List_Lexorder" "HOL-Library.Multiset"
begin

section \<open>Data model\<close>

text \<open>
  Modelled from the spec: the operator tags of package \<open>nfdv1alpha1\<close> (the Go type
  \<open>MatchOp\<close> is a string type whose eleven constants form the catalog of the spec).
  \<open>MatchOther s\<close> stands for a tag \<open>s\<close> that is none of the eleven constants.
\<close>

datatype MatchOp =
    MatchAny
  | MatchIn
  | MatchNotIn
  | MatchInRegexp
  | MatchExists
  | MatchDoesNotExist
  | MatchGt
  | MatchLt
  | MatchGtLt
  | MatchIsTrue
  | MatchIsFalse
  | MatchOther string

text \<open>
  Modelled from the spec: the struct \<open>nfdv1alpha1.MatchExpression\<close>, an operator and
  an ordered sequence of string operands. The code reads the fields \<open>m.Op\<close> and
  \<open>m.Value\<close>. Pointers to expressions are taken to be non-nil.
\<close>

record MatchExpression =
  Op :: MatchOp
  Value :: "string list"

text \<open>
  Modelled from the spec: \<open>nfdv1alpha1.MatchExpressionSet\<close>, a Go map from names to
  expressions. The evaluators range over it, and Go leaves the order of a range over
  a map open, so a set is given as the list of its entries in the order in which the
  range statement of one call visits them. The names of a map are distinct.
\<close>

type_synonym MatchExpressionSet = "(string \<times> MatchExpression) list"

text \<open>\<open>type MatchedElement map[string]string\<close>\<close>

type_synonym MatchedElement = "string \<rightharpoonup> string"

text \<open>
  Modelled from the spec: \<open>nfdv1alpha1.InstanceFeature\<close>, of which the code reads the
  field \<open>Attributes\<close>, a map from names to string values.
\<close>

record InstanceFeature =
  Attributes :: "string \<rightharpoonup> string"

text \<open>
  The errors are built by \<open>fmt.Errorf\<close>; one constructor for each format string, with
  the arguments of the format.
\<close>

datatype error =
    InvalidOp MatchOp
      \<comment> \<open>\<open>invalid Op %q\<close>\<close>
  | ValueMustBeEmpty MatchOp "string list"
      \<comment> \<open>\<open>invalid expression, 'value' field must be empty for Op %q (have %v)\<close>\<close>
  | ValueMustBeNonEmpty MatchOp
      \<comment> \<open>\<open>invalid expression, 'value' field must be non-empty for Op %q\<close>\<close>
  | InvalidRegexp MatchOp "string list"
      \<comment> \<open>\<open>'value' field must only contain valid regexps for Op %q (have %v)\<close>\<close>
  | ValueMustBeOneElement MatchOp "string list"
      \<comment> \<open>\<open>'value' field must contain exactly one element for Op %q (have %v)\<close>\<close>
  | ValueMustBeTwoElements MatchOp "string list"
      \<comment> \<open>\<open>value' field must contain exactly two elements for Op %q (have %v)\<close>\<close>
  | NotANumber string
      \<comment> \<open>\<open>not a number %q\<close>\<close>
  | NotANumberIn string MatchExpression
      \<comment> \<open>\<open>not a number %q in %v\<close>\<close>
  | InvalidRange MatchOp "string list"
      \<comment> \<open>\<open>value[0] must be less than Value[1] for Op %q (have %v)\<close>\<close>
  | UnsupportedOp MatchOp
      \<comment> \<open>\<open>unsupported Op %q\<close>\<close>
  | InvalidOpForKeys MatchOp
      \<comment> \<open>\<open>invalid Op %q when matching keys\<close>\<close>

definition matchOps :: "MatchOp set" where
  "matchOps =
     {MatchAny, MatchIn, MatchNotIn, MatchInRegexp, MatchExists, MatchDoesNotExist,
      MatchGt, MatchLt, MatchGtLt, MatchIsTrue, MatchIsFalse}"

section \<open>Library functions\<close>

text \<open>
  \<open>strconv.Atoi\<close> of the Go library: an optional sign, then one or more decimal
  digits, and the number has to fit \<open>int\<close> (64 bits); everything else is an error.
\<close>

definition is_digit :: "char \<Rightarrow> bool" where
  "is_digit c \<longleftrightarrow> 48 \<le> (of_char c :: nat) \<and> (of_char c :: nat) \<le> 57"

definition digit_val :: "char \<Rightarrow> int" where
  "digit_val c = int (of_char c) - 48"

fun digits_val :: "int \<Rightarrow> string \<Rightarrow> int" where
  "digits_val n [] = n"
| "digits_val n (ch # s) = digits_val (n * 10 + digit_val ch) s"

definition Atoi :: "string \<Rightarrow> int option" where
  "Atoi s =
     (let neg = (s \<noteq> [] \<and> hd s = CHR ''-'');
          ds = (if s \<noteq> [] \<and> (hd s = CHR ''-'' \<or> hd s = CHR ''+'') then tl s else s)
      in if ds = [] \<or> \<not> list_all is_digit ds then None
         else let n = (if neg then - digits_val 0 ds else digits_val 0 ds)
              in if - (2 ^ 63) \<le> n \<and> n < 2 ^ 63 then Some n else None)"

text \<open>
  \<open>regexp.Compile\<close> and \<open>(*Regexp).MatchString\<close> of the Go library are a parameter of
  the evaluators: \<open>rx p\<close> is \<open>None\<close> when the pattern \<open>p\<close> does not compile, and
  otherwise the compiled expression, given by what its \<open>MatchString\<close> answers.
\<close>

type_synonym regexp_Compile = "string \<Rightarrow> (string \<Rightarrow> bool) option"

text \<open>
  \<open>sort.Slice\<close> of the Go library with the given \<open>less\<close>, as an insertion sort. The
  library's sort is not stable; the evaluators sort elements whose names are the keys
  of one map, hence distinct, and then all sorted orders agree (lemma
  \<open>sorted_by_key_unique\<close> below).
\<close>

fun insert_Slice :: "('a \<Rightarrow> 'a \<Rightarrow> bool) \<Rightarrow> 'a \<Rightarrow> 'a list \<Rightarrow> 'a list" where
  "insert_Slice lt x [] = [x]"
| "insert_Slice lt x (y # ys) =
     (if lt y x then y # insert_Slice lt x ys else x # y # ys)"

fun sort_Slice :: "('a \<Rightarrow> 'a \<Rightarrow> bool) \<Rightarrow> 'a list \<Rightarrow> 'a list" where
  "sort_Slice lt [] = []"
| "sort_Slice lt (x # xs) = insert_Slice lt x (sort_Slice lt xs)"

text \<open>
  A stand-in for the regexp library on the patterns of the examples below. A pattern
  of letters and digits is compiled, and it matches the strings that contain it, as
  in Go; no other pattern is compiled here (Go rejects some of them, such as \<open>(\<close>).
\<close>

definition is_alnum :: "char \<Rightarrow> bool" where
  "is_alnum c \<longleftrightarrow>
     (48 \<le> (of_char c :: nat) \<and> (of_char c :: nat) \<le> 57) \<or>
     (65 \<le> (of_char c :: nat) \<and> (of_char c :: nat) \<le> 90) \<or>
     (97 \<le> (of_char c :: nat) \<and> (of_char c :: nat) \<le> 122)"

fun starts_with :: "string \<Rightarrow> string \<Rightarrow> bool" where
  "starts_with s [] = True"
| "starts_with [] (c # p) = False"
| "starts_with (d # s) (c # p) = (d = c \<and> starts_with s p)"

fun contains :: "string \<Rightarrow> string \<Rightarrow> bool" where
  "contains [] p = (p = [])"
| "contains (d # s) p = (starts_with (d # s) p \<or> contains s p)"

definition literal_regexp :: regexp_Compile where
  "literal_regexp p = (if list_all is_alnum p then Some (\<lambda>s. contains s p) else None)"

section \<open>The scalar evaluator\<close>

text \<open>
  \<open>evaluateMatchExpression\<close>. Its callers pass a string as \<open>value\<close>, and
  \<open>fmt.Sprintf("%v", value)\<close> of a string is the string. The result is the pair that
  the Go function returns, \<open>None\<close> for a nil error.
\<close>

fun compile_all :: "regexp_Compile \<Rightarrow> string list \<Rightarrow> (string \<Rightarrow> bool) list option" where
  "compile_all rx [] = Some []"
| "compile_all rx (v # vs) =
     (case rx v of
        None \<Rightarrow> None
      | Some re \<Rightarrow> (case compile_all rx vs of None \<Rightarrow> None | Some res \<Rightarrow> Some (re # res)))"

definition evaluateMatchExpression ::
  "regexp_Compile \<Rightarrow> MatchExpression \<Rightarrow> bool \<Rightarrow> string \<Rightarrow> bool \<times> error option" where
  "evaluateMatchExpression rx m valid val =
     (if Op m \<notin> matchOps then (False, Some (InvalidOp (Op m)))
      else if Op m = MatchAny then
        (if length (Value m) \<noteq> 0 then (False, Some (ValueMustBeEmpty (Op m) (Value m)))
         else (True, None))
      else if Op m = MatchExists then
        (if length (Value m) \<noteq> 0 then (False, Some (ValueMustBeEmpty (Op m) (Value m)))
         else (valid, None))
      else if Op m = MatchDoesNotExist then
        (if length (Value m) \<noteq> 0 then (False, Some (ValueMustBeEmpty (Op m) (Value m)))
         else (\<not> valid, None))
      else if valid then
        (case Op m of
           MatchIn \<Rightarrow>
             if length (Value m) = 0 then (False, Some (ValueMustBeNonEmpty (Op m)))
             else if list_ex (\<lambda>v. val = v) (Value m) then (True, None)
             else (False, None)
         | MatchNotIn \<Rightarrow>
             if length (Value m) = 0 then (False, Some (ValueMustBeNonEmpty (Op m)))
             else if list_ex (\<lambda>v. val = v) (Value m) then (False, None)
             else (True, None)
         | MatchInRegexp \<Rightarrow>
             if length (Value m) = 0 then (False, Some (ValueMustBeNonEmpty (Op m)))
             else (case compile_all rx (Value m) of
                     None \<Rightarrow> (False, Some (InvalidRegexp (Op m) (Value m)))
                   | Some valueRe \<Rightarrow>
                       if list_ex (\<lambda>re. re val) valueRe then (True, None) else (False, None))
         | MatchGt \<Rightarrow>
             if length (Value m) \<noteq> 1 then
               (False, Some (ValueMustBeOneElement (Op m) (Value m)))
             else (case Atoi val of
                     None \<Rightarrow> (False, Some (NotANumber val))
                   | Some l \<Rightarrow>
                      (case Atoi (Value m ! 0) of
                         None \<Rightarrow> (False, Some (NotANumberIn (Value m ! 0) m))
                       | Some r \<Rightarrow>
                           if (l < r \<and> Op m = MatchLt) \<or> (l > r \<and> Op m = MatchGt)
                           then (True, None) else (False, None)))
         | MatchLt \<Rightarrow>
             if length (Value m) \<noteq> 1 then
               (False, Some (ValueMustBeOneElement (Op m) (Value m)))
             else (case Atoi val of
                     None \<Rightarrow> (False, Some (NotANumber val))
                   | Some l \<Rightarrow>
                      (case Atoi (Value m ! 0) of
                         None \<Rightarrow> (False, Some (NotANumberIn (Value m ! 0) m))
                       | Some r \<Rightarrow>
                           if (l < r \<and> Op m = MatchLt) \<or> (l > r \<and> Op m = MatchGt)
                           then (True, None) else (False, None)))
         | MatchGtLt \<Rightarrow>
             if length (Value m) \<noteq> 2 then
               (False, Some (ValueMustBeTwoElements (Op m) (Value m)))
             else (case Atoi val of
                     None \<Rightarrow> (False, Some (NotANumber val))
                   | Some v \<Rightarrow>
                      (case Atoi (Value m ! 0) of
                         None \<Rightarrow> (False, Some (NotANumberIn (Value m ! 0) m))
                       | Some lr0 \<Rightarrow>
                          (case Atoi (Value m ! 1) of
                             None \<Rightarrow> (False, Some (NotANumberIn (Value m ! 1) m))
                           | Some lr1 \<Rightarrow>
                               if lr0 \<ge> lr1 then (False, Some (InvalidRange (Op m) (Value m)))
                               else (v > lr0 \<and> v < lr1, None))))
         | MatchIsTrue \<Rightarrow>
             if length (Value m) \<noteq> 0 then (False, Some (ValueMustBeEmpty (Op m) (Value m)))
             else (val = ''true'', None)
         | MatchIsFalse \<Rightarrow>
             if length (Value m) \<noteq> 0 then (False, Some (ValueMustBeEmpty (Op m) (Value m)))
             else (val = ''false'', None)
         | _ \<Rightarrow> (False, Some (UnsupportedOp (Op m))))
      else (False, None))"

section \<open>Evaluating one expression against keys and values\<close>

text \<open>
  A Go map that a function only indexes is a map of HOL: \<open>keys\<close> is a
  \<open>map[string]Nil\<close>, \<open>values\<close> a \<open>map[string]string\<close>. Indexing a map of strings at a
  missing key gives the empty string. The \<open>klog\<close> calls do not touch the result and
  are left out.
\<close>

definition index_string :: "(string \<rightharpoonup> string) \<Rightarrow> string \<Rightarrow> string" where
  "index_string values name = (case values name of None \<Rightarrow> [] | Some v \<Rightarrow> v)"

definition evaluateMatchExpressionKeys ::
  "MatchExpression \<Rightarrow> string \<Rightarrow> (string \<rightharpoonup> unit) \<Rightarrow> bool \<times> error option" where
  "evaluateMatchExpressionKeys m name keys =
     (let ok = (keys name \<noteq> None)
      in case Op m of
           MatchAny \<Rightarrow> (True, None)
         | MatchExists \<Rightarrow> (ok, None)
         | MatchDoesNotExist \<Rightarrow> (\<not> ok, None)
         | _ \<Rightarrow> (False, Some (InvalidOpForKeys (Op m))))"

definition evaluateMatchExpressionValues ::
  "regexp_Compile \<Rightarrow> MatchExpression \<Rightarrow> string \<Rightarrow> (string \<rightharpoonup> string) \<Rightarrow> bool \<times> error option" where
  "evaluateMatchExpressionValues rx m name values =
     (let v = index_string values name; ok = (values name \<noteq> None)
      in case evaluateMatchExpression rx m ok v of
           (matched, Some err) \<Rightarrow> (False, Some err)
         | (matched, None) \<Rightarrow> (matched, None))"

section \<open>Matched elements and their order\<close>

definition Name_of :: "MatchedElement \<Rightarrow> string" where
  "Name_of e = index_string e ''Name''"

text \<open>The closure \<open>func(i, j int) bool { return ret[i]["Name"] < ret[j]["Name"] }\<close>.\<close>

definition less_Name :: "MatchedElement \<Rightarrow> MatchedElement \<Rightarrow> bool" where
  "less_Name a b \<longleftrightarrow> Name_of a < Name_of b"

text \<open>\<open>len\<close> of a slice, which is 0 for the nil slice (\<open>None\<close>).\<close>

definition len :: "'a list option \<Rightarrow> nat" where
  "len v = (case v of None \<Rightarrow> 0 | Some xs \<Rightarrow> length xs)"

section \<open>Matching an expression against the names of a feature set\<close>

text \<open>
  \<open>MatchKeyNames\<close> and \<open>MatchValueNames\<close> range over the input map: \<open>keys\<close> and
  \<open>values\<close> are the entries in the order of that range. The loop returns \<open>Inl err\<close>
  where the Go loop returns early with the error.
\<close>

fun MatchKeyNames_loop ::
  "regexp_Compile \<Rightarrow> MatchExpression \<Rightarrow> string list \<Rightarrow> MatchedElement list
     \<Rightarrow> error + MatchedElement list" where
  "MatchKeyNames_loop rx m [] ret = Inr ret"
| "MatchKeyNames_loop rx m (k # keys) ret =
     (case evaluateMatchExpression rx m True k of
        (match, Some err) \<Rightarrow> Inl err
      | (match, None) \<Rightarrow>
          if match then MatchKeyNames_loop rx m keys (ret @ [[''Name'' \<mapsto> k]])
          else MatchKeyNames_loop rx m keys ret)"

definition MatchKeyNames ::
  "regexp_Compile \<Rightarrow> MatchExpression \<Rightarrow> string list
     \<Rightarrow> bool \<times> MatchedElement list option \<times> error option" where
  "MatchKeyNames rx m keys =
     (case MatchKeyNames_loop rx m keys [] of
        Inl err \<Rightarrow> (False, None, Some err)
      | Inr ret \<Rightarrow>
          (let ret' = sort_Slice less_Name ret
           in (length ret' > 0, Some ret', None)))"

fun MatchValueNames_loop ::
  "regexp_Compile \<Rightarrow> MatchExpression \<Rightarrow> (string \<times> string) list \<Rightarrow> MatchedElement list
     \<Rightarrow> error + MatchedElement list" where
  "MatchValueNames_loop rx m [] ret = Inr ret"
| "MatchValueNames_loop rx m ((k, v) # values) ret =
     (case evaluateMatchExpression rx m True k of
        (match, Some err) \<Rightarrow> Inl err
      | (match, None) \<Rightarrow>
          if match
          then MatchValueNames_loop rx m values (ret @ [[''Name'' \<mapsto> k, ''Value'' \<mapsto> v]])
          else MatchValueNames_loop rx m values ret)"

definition MatchValueNames ::
  "regexp_Compile \<Rightarrow> MatchExpression \<Rightarrow> (string \<times> string) list
     \<Rightarrow> bool \<times> MatchedElement list option \<times> error option" where
  "MatchValueNames rx m values =
     (case MatchValueNames_loop rx m values [] of
        Inl err \<Rightarrow> (False, None, Some err)
      | Inr ret \<Rightarrow>
          (let ret' = sort_Slice less_Name ret
           in (length ret' > 0, Some ret', None)))"

section \<open>Matching an expression set (AND over its entries)\<close>

text \<open>
  The loops of \<open>MatchGetKeys\<close> and \<open>MatchGetValues\<close> return \<open>Inl r\<close> where the Go loop
  returns early with the triple \<open>r\<close>, and \<open>Inr ret\<close> when the range is exhausted.
\<close>

fun MatchGetKeys_loop ::
  "MatchExpressionSet \<Rightarrow> (string \<rightharpoonup> unit) \<Rightarrow> MatchedElement list
     \<Rightarrow> (bool \<times> MatchedElement list option \<times> error option) + MatchedElement list" where
  "MatchGetKeys_loop [] keys ret = Inr ret"
| "MatchGetKeys_loop ((n, e) # m) keys ret =
     (case evaluateMatchExpressionKeys e n keys of
        (match, Some err) \<Rightarrow> Inl (False, None, Some err)
      | (match, None) \<Rightarrow>
          if \<not> match then Inl (False, None, None)
          else MatchGetKeys_loop m keys (ret @ [[''Name'' \<mapsto> n]]))"

definition MatchGetKeys ::
  "MatchExpressionSet \<Rightarrow> (string \<rightharpoonup> unit)
     \<Rightarrow> bool \<times> MatchedElement list option \<times> error option" where
  "MatchGetKeys m keys =
     (case MatchGetKeys_loop m keys [] of
        Inl r \<Rightarrow> r
      | Inr ret \<Rightarrow> (True, Some (sort_Slice less_Name ret), None))"

definition MatchKeys :: "MatchExpressionSet \<Rightarrow> (string \<rightharpoonup> unit) \<Rightarrow> bool \<times> error option" where
  "MatchKeys m keys = (case MatchGetKeys m keys of (matched, _, err) \<Rightarrow> (matched, err))"

fun MatchGetValues_loop ::
  "regexp_Compile \<Rightarrow> MatchExpressionSet \<Rightarrow> (string \<rightharpoonup> string) \<Rightarrow> MatchedElement list
     \<Rightarrow> (bool \<times> MatchedElement list option \<times> error option) + MatchedElement list" where
  "MatchGetValues_loop rx [] values ret = Inr ret"
| "MatchGetValues_loop rx ((n, e) # m) values ret =
     (case evaluateMatchExpressionValues rx e n values of
        (match, Some err) \<Rightarrow> Inl (False, None, Some err)
      | (match, None) \<Rightarrow>
          if \<not> match then Inl (False, None, None)
          else MatchGetValues_loop rx m values
                 (ret @ [[''Name'' \<mapsto> n, ''Value'' \<mapsto> index_string values n]]))"

definition MatchGetValues ::
  "regexp_Compile \<Rightarrow> MatchExpressionSet \<Rightarrow> (string \<rightharpoonup> string)
     \<Rightarrow> bool \<times> MatchedElement list option \<times> error option" where
  "MatchGetValues rx m values =
     (case MatchGetValues_loop rx m values [] of
        Inl r \<Rightarrow> r
      | Inr ret \<Rightarrow> (True, Some (sort_Slice less_Name ret), None))"

definition MatchValues ::
  "regexp_Compile \<Rightarrow> MatchExpressionSet \<Rightarrow> (string \<rightharpoonup> string) \<Rightarrow> bool \<times> error option" where
  "MatchValues rx m values =
     (case MatchGetValues rx m values of (matched, _, err) \<Rightarrow> (matched, err))"

section \<open>Matching an expression set against instances (OR over the records)\<close>

text \<open>
  \<open>MatchGetInstances\<close> calls \<open>MatchValues\<close> once for each record, and each call
  starts a range of its own over the set. So the set is given as \<open>ms\<close>, where \<open>ms k\<close>
  lists the entries in the order in which the call for record \<open>k\<close> of the input
  visits them; the loop counts the records in \<open>k\<close>.
\<close>

fun MatchGetInstances_loop ::
  "regexp_Compile \<Rightarrow> (nat \<Rightarrow> MatchExpressionSet) \<Rightarrow> nat \<Rightarrow> InstanceFeature list
     \<Rightarrow> MatchedElement list \<Rightarrow> MatchedElement list option \<times> error option" where
  "MatchGetInstances_loop rx ms k [] ret = (Some ret, None)"
| "MatchGetInstances_loop rx ms k (i # instances) ret =
     (case MatchValues rx (ms k) (Attributes i) of
        (match, Some err) \<Rightarrow> (None, Some err)
      | (match, None) \<Rightarrow>
          if match then MatchGetInstances_loop rx ms (Suc k) instances (ret @ [Attributes i])
          else MatchGetInstances_loop rx ms (Suc k) instances ret)"

definition MatchGetInstances ::
  "regexp_Compile \<Rightarrow> (nat \<Rightarrow> MatchExpressionSet) \<Rightarrow> InstanceFeature list
     \<Rightarrow> MatchedElement list option \<times> error option" where
  "MatchGetInstances rx ms instances = MatchGetInstances_loop rx ms 0 instances []"

definition MatchInstances ::
  "regexp_Compile \<Rightarrow> (nat \<Rightarrow> MatchExpressionSet) \<Rightarrow> InstanceFeature list
     \<Rightarrow> bool \<times> error option" where
  "MatchInstances rx ms instances =
     (case MatchGetInstances rx ms instances of (v, err) \<Rightarrow> (len v > 0, err))"

section \<open>Properties of the scalar evaluator\<close>

lemmas Atoi_eval = Atoi_def is_digit_def digit_val_def

lemma compile_all_None: "compile_all rx vs = None \<longleftrightarrow> (\<exists>p\<in>set vs. rx p = None)"
  by (induction vs) (auto split: option.splits)

lemma compile_all_Some:
  "compile_all rx vs = Some res \<Longrightarrow> res = map (\<lambda>p. the (rx p)) vs"
  by (induction vs arbitrary: res) (auto split: option.splits)

text \<open>
  Claim C1. For each of the value-based operators In, NotIn, InRegexp, Gt, Lt, GtLt,
  IsTrue and IsFalse, an absent candidate (\<open>valid = False\<close>) gives \<open>(false, nil)\<close>,
  whatever the candidate value and whatever the operands: no arity, number, regexp
  or range error is reported.
\<close>

theorem absent_candidate_no_match:
  assumes "Op m \<in> {MatchIn, MatchNotIn, MatchInRegexp, MatchGt, MatchLt, MatchGtLt,
                     MatchIsTrue, MatchIsFalse}"
  shows "evaluateMatchExpression rx m False val = (False, None)"
  using assms by (auto simp: evaluateMatchExpression_def matchOps_def)

text \<open>C1 at a GtLt expression with three operands and at an InRegexp expression with none.\<close>

theorem absent_candidate_no_match_witness:
  "evaluateMatchExpression literal_regexp
       \<lparr>Op = MatchGtLt, Value = [''5'', ''x'', ''('']\<rparr> False ''abc'' = (False, None)
   \<and> evaluateMatchExpression literal_regexp
       \<lparr>Op = MatchInRegexp, Value = []\<rparr> False ''abc'' = (False, None)"
  using
    absent_candidate_no_match
      [of "\<lparr>Op = MatchGtLt, Value = [''5'', ''x'', ''('']\<rparr>" literal_regexp "''abc''"]
    absent_candidate_no_match
      [of "\<lparr>Op = MatchInRegexp, Value = []\<rparr>" literal_regexp "''abc''"]
  by simp

text \<open>
  Claim C2, as stated: a GtLt expression with operands \<open>["5","1"]\<close> evaluates to an
  InvalidRange error. The candidate decides: an absent candidate gives \<open>(false, nil)\<close>
  before the operands are looked at, and a present candidate that is not a number
  gives the not-a-number error of the candidate, which is parsed first.
\<close>

theorem GtLt_inverted_range_counterexample:
  "evaluateMatchExpression literal_regexp
       \<lparr>Op = MatchGtLt, Value = [''5'', ''1'']\<rparr> False ''3'' = (False, None)
   \<and> evaluateMatchExpression literal_regexp
       \<lparr>Op = MatchGtLt, Value = [''5'', ''1'']\<rparr> True ''x'' = (False, Some (NotANumber ''x''))"
  by (simp add: evaluateMatchExpression_def matchOps_def Atoi_eval)

text \<open>
  Claim C2, amended: for a present candidate that parses as an integer, a GtLt
  expression with two operands that parse as integers \<open>lo\<close> and \<open>hi\<close> with \<open>lo \<ge> hi\<close>
  evaluates to the InvalidRange error.
\<close>

theorem GtLt_inverted_range:
  assumes "Op m = MatchGtLt" and "Value m = [a, b]"
    and "Atoi val = Some v" and "Atoi a = Some lo" and "Atoi b = Some hi" and "lo \<ge> hi"
  shows "evaluateMatchExpression rx m True val = (False, Some (InvalidRange MatchGtLt [a, b]))"
  using assms by (simp add: evaluateMatchExpression_def matchOps_def)

text \<open>The amended C2 at operands \<open>["5","1"]\<close> and candidate \<open>"3"\<close>.\<close>

theorem GtLt_inverted_range_witness:
  "evaluateMatchExpression literal_regexp \<lparr>Op = MatchGtLt, Value = [''5'', ''1'']\<rparr> True ''3''
     = (False, Some (InvalidRange MatchGtLt [''5'', ''1'']))"
proof -
  have a: "Atoi ''1'' = Some 1" and b: "Atoi ''5'' = Some 5" and c: "Atoi ''3'' = Some 3"
    by (simp_all add: Atoi_eval)
  show ?thesis
    using
      GtLt_inverted_range
        [of "\<lparr>Op = MatchGtLt, Value = [''5'', ''1'']\<rparr>" "''5''" "''1''" "''3''" 3 5 1
            literal_regexp]
      a b c
    by simp
qed

text \<open>
  The keys evaluator on its own: operators other than Any, Exists and DoesNotExist
  give the invalid-operator error, and on an empty operand list the three existence
  operators agree with the scalar evaluator.
\<close>

lemma keys_evaluator_other_operators:
  assumes "Op m \<notin> {MatchAny, MatchExists, MatchDoesNotExist}"
  shows "evaluateMatchExpressionKeys m name keys = (False, Some (InvalidOpForKeys (Op m)))"
  using assms by (cases "Op m") (simp_all add: evaluateMatchExpressionKeys_def)

lemma keys_evaluator_existence:
  assumes "Op m \<in> {MatchAny, MatchExists, MatchDoesNotExist}" and "Value m = []"
  shows "evaluateMatchExpressionKeys m name keys =
     evaluateMatchExpression rx m (keys name \<noteq> None) val"
  using assms
  by (auto simp: evaluateMatchExpressionKeys_def evaluateMatchExpression_def matchOps_def)

text \<open>
  Claim C3, at the input where the code departs from it: the keys evaluator does not
  look at the operands, so \<open>{Op: Exists, Value: ["x"]}\<close> matches a present key,
  while the scalar evaluator answers the same expression with the arity error.
\<close>

theorem keys_evaluator_skips_arity_check:
  "evaluateMatchExpressionKeys \<lparr>Op = MatchExists, Value = [''x'']\<rparr> ''a'' [''a'' \<mapsto> ()]
     = (True, None)
   \<and> evaluateMatchExpression literal_regexp \<lparr>Op = MatchExists, Value = [''x'']\<rparr> True ''a''
     = (False, Some (ValueMustBeEmpty MatchExists [''x'']))"
  by (simp add: evaluateMatchExpressionKeys_def evaluateMatchExpression_def matchOps_def)

text \<open>
  Claim C4. For GtLt with exactly two operands, a present candidate, all three
  strings parsing as integers and operand 0 below operand 1, the expression matches
  if and only if the candidate lies strictly between the operands.
\<close>

theorem GtLt_open_interval:
  assumes "Op m = MatchGtLt" and "Value m = [a, b]"
    and "Atoi val = Some v" and "Atoi a = Some lo" and "Atoi b = Some hi" and "lo < hi"
  shows "evaluateMatchExpression rx m True val = (lo < v \<and> v < hi, None)"
  using assms by (simp add: evaluateMatchExpression_def matchOps_def)

text \<open>C4 at operands \<open>["1","5"]\<close>: candidate \<open>"3"\<close> matches, \<open>"5"\<close> and \<open>"0"\<close> do not.\<close>

theorem GtLt_open_interval_witness:
  "evaluateMatchExpression literal_regexp
       \<lparr>Op = MatchGtLt, Value = [''1'', ''5'']\<rparr> True ''3'' = (True, None)
   \<and> evaluateMatchExpression literal_regexp
       \<lparr>Op = MatchGtLt, Value = [''1'', ''5'']\<rparr> True ''5'' = (False, None)
   \<and> evaluateMatchExpression literal_regexp
       \<lparr>Op = MatchGtLt, Value = [''1'', ''5'']\<rparr> True ''0'' = (False, None)"
proof -
  let ?m = "\<lparr>Op = MatchGtLt, Value = [''1'', ''5'']\<rparr>"
  have a: "Atoi ''1'' = Some 1" and b: "Atoi ''5'' = Some 5"
    and c: "Atoi ''3'' = Some 3" and d: "Atoi ''0'' = Some 0"
    by (simp_all add: Atoi_eval)
  have lt: "(1::int) < 5" by simp
  show ?thesis
    using GtLt_open_interval [of ?m "''1''" "''5''" "''3''" 3 1 5 literal_regexp]
      GtLt_open_interval [of ?m "''1''" "''5''" "''5''" 5 1 5 literal_regexp]
      GtLt_open_interval [of ?m "''1''" "''5''" "''0''" 0 1 5 literal_regexp]
      a b c d lt
    by simp
qed

text \<open>
  Claim C6. For InRegexp with a non-empty operand list and a present candidate: if
  some operand does not compile, the result is the InvalidRegexp error, whether or
  not the other patterns match, since all operands are compiled first; otherwise the
  expression matches if and only if \<open>MatchString\<close> of some compiled operand accepts
  the candidate.
\<close>

theorem InRegexp_eager_compile:
  assumes "Op m = MatchInRegexp" and "Value m \<noteq> []"
  shows "evaluateMatchExpression rx m True val =
     (if \<exists>p\<in>set (Value m). rx p = None
      then (False, Some (InvalidRegexp MatchInRegexp (Value m)))
      else (\<exists>p\<in>set (Value m). \<exists>re. rx p = Some re \<and> re val, None))"
proof (cases "compile_all rx (Value m)")
  case None
  then have "\<exists>p\<in>set (Value m). rx p = None"
    by (simp add: compile_all_None)
  then show ?thesis
    using assms None by (simp add: evaluateMatchExpression_def matchOps_def)
next
  case (Some res)
  then have all: "\<not> (\<exists>p\<in>set (Value m). rx p = None)"
    using compile_all_None [of rx "Value m"] by simp
  have res: "res = map (\<lambda>p. the (rx p)) (Value m)"
    using Some by (rule compile_all_Some)
  have "list_ex (\<lambda>re. re val) res \<longleftrightarrow> (\<exists>p\<in>set (Value m). \<exists>re. rx p = Some re \<and> re val)"
    using all unfolding res list_ex_iff by (simp, force)
  then show ?thesis
    using assms Some all by (simp add: evaluateMatchExpression_def matchOps_def)
qed

text \<open>
  C6 at candidate \<open>"abc"\<close>: the operands \<open>["zz", "("]\<close> give the error although
  \<open>"zz"\<close> does not match; \<open>["zz", "b"]\<close> match (\<open>"b"\<close> is found inside the candidate);
  \<open>["zz", "d"]\<close> do not.
\<close>

theorem InRegexp_eager_compile_witness:
  "evaluateMatchExpression literal_regexp
       \<lparr>Op = MatchInRegexp, Value = [''zz'', ''('']\<rparr> True ''abc''
     = (False, Some (InvalidRegexp MatchInRegexp [''zz'', ''('']))
   \<and> evaluateMatchExpression literal_regexp
       \<lparr>Op = MatchInRegexp, Value = [''zz'', ''b'']\<rparr> True ''abc'' = (True, None)
   \<and> evaluateMatchExpression literal_regexp
       \<lparr>Op = MatchInRegexp, Value = [''zz'', ''d'']\<rparr> True ''abc'' = (False, None)"
  using
    InRegexp_eager_compile
      [of "\<lparr>Op = MatchInRegexp, Value = [''zz'', ''('']\<rparr>" literal_regexp "''abc''"]
    InRegexp_eager_compile
      [of "\<lparr>Op = MatchInRegexp, Value = [''zz'', ''b'']\<rparr>" literal_regexp "''abc''"]
    InRegexp_eager_compile
      [of "\<lparr>Op = MatchInRegexp, Value = [''zz'', ''d'']\<rparr>" literal_regexp "''abc''"]
  by (simp add: literal_regexp_def is_alnum_def)

section \<open>Properties of the sort\<close>

lemma insert_Slice_less_Name: "insert_Slice less_Name x ys = insort_key Name_of x ys"
  by (induction ys) (auto simp: less_Name_def)

lemma sort_Slice_less_Name: "sort_Slice less_Name xs = sort_key Name_of xs"
  by (induction xs) (simp_all add: insert_Slice_less_Name)

lemma sorted_sort_Slice: "sorted (map Name_of (sort_Slice less_Name xs))"
  by (simp add: sort_Slice_less_Name)

lemma filter_key_distinct:
  "distinct (map f zs) \<Longrightarrow> k \<in> set zs \<Longrightarrow> filter (\<lambda>x. f k = f x) zs = [k]"
proof (induction zs)
  case Nil
  then show ?case by simp
next
  case (Cons z zs)
  show ?case
  proof (cases "k = z")
    case True
    have "filter (\<lambda>x. f z = f x) zs = []"
      using Cons.prems(1) by (auto simp: filter_empty_conv)
    then show ?thesis using True by simp
  next
    case False
    then have "k \<in> set zs" using Cons.prems(2) by simp
    then have "f k \<noteq> f z" using Cons.prems(1) by (metis distinct.simps(2) image_eqI list.simps(9) set_map)
    then show ?thesis using Cons \<open>k \<in> set zs\<close> by simp
  qed
qed

lemma sorted_by_key_unique:
  assumes "mset ys = mset xs" and "distinct (map f xs)" and "sorted (map f ys)"
  shows "sort_key f xs = ys"
proof (rule properties_for_sort_key)
  show "mset ys = mset xs" by (rule assms(1))
  show "sorted (map f ys)" by (rule assms(3))
  have "mset (map f ys) = mset (map f xs)"
    using assms(1) by simp
  then have dys: "distinct (map f ys)"
    using assms(2) by (metis mset_eq_imp_distinct_iff)
  fix k assume k: "k \<in> set ys"
  then have "k \<in> set xs" using assms(1) by (metis set_mset_mset)
  then show "filter (\<lambda>x. f k = f x) ys = filter (\<lambda>x. f k = f x) xs"
    using k dys assms(2) by (simp add: filter_key_distinct)
qed

lemma sort_Slice_order_irrelevant:
  assumes "mset xs = mset ys" and "distinct (map Name_of xs)"
  shows "sort_Slice less_Name xs = sort_Slice less_Name ys"
proof -
  have "sort_key Name_of xs = sort_key Name_of ys"
    using assms by (intro sorted_by_key_unique) simp_all
  then show ?thesis by (simp add: sort_Slice_less_Name)
qed

text \<open>
  Any sort of elements with distinct names returns what the insertion sort returns, so
  the model of \<open>sort.Slice\<close> does not depend on the algorithm of the library.
\<close>

lemma sort_Slice_unique:
  assumes "mset ys = mset xs" and "distinct (map Name_of xs)" and "sorted (map Name_of ys)"
  shows "sort_Slice less_Name xs = ys"
  using sorted_by_key_unique [OF assms] by (simp add: sort_Slice_less_Name)

section \<open>Properties of the set evaluators\<close>

lemmas eval_defs = evaluateMatchExpressionValues_def evaluateMatchExpressionKeys_def
  evaluateMatchExpression_def matchOps_def index_string_def

subsection \<open>The loops over an expression set\<close>

lemma MatchGetValues_loop_all:
  "\<forall>(n, e)\<in>set m. evaluateMatchExpressionValues rx e n values = (True, None) \<Longrightarrow>
   MatchGetValues_loop rx m values ret =
     Inr (ret @ map (\<lambda>(n, e). [''Name'' \<mapsto> n, ''Value'' \<mapsto> index_string values n]) m)"
  by (induction m arbitrary: ret) auto

lemma MatchGetValues_loop_not_all:
  "\<exists>(n, e)\<in>set m. evaluateMatchExpressionValues rx e n values \<noteq> (True, None) \<Longrightarrow>
   \<exists>err. MatchGetValues_loop rx m values ret = Inl (False, None, err)"
proof (induction m arbitrary: ret)
  case Nil
  then show ?case by simp
next
  case (Cons ne m)
  obtain n e where ne: "ne = (n, e)" by (cases ne)
  show ?case
  proof (cases "evaluateMatchExpressionValues rx e n values = (True, None)")
    case True
    then have "\<exists>(n, e)\<in>set m. evaluateMatchExpressionValues rx e n values \<noteq> (True, None)"
      using Cons.prems ne by auto
    then show ?thesis using Cons.IH True ne by simp
  next
    case False
    then show ?thesis using ne
      by (cases "evaluateMatchExpressionValues rx e n values") (auto split: option.splits)
  qed
qed

lemma MatchGetValues_loop_clean:
  "\<forall>(n, e)\<in>set m. snd (evaluateMatchExpressionValues rx e n values) = None \<Longrightarrow>
   \<exists>(n, e)\<in>set m. \<not> fst (evaluateMatchExpressionValues rx e n values) \<Longrightarrow>
   MatchGetValues_loop rx m values ret = Inl (False, None, None)"
proof (induction m arbitrary: ret)
  case Nil
  then show ?case by simp
next
  case (Cons ne m)
  obtain n e where ne: "ne = (n, e)" by (cases ne)
  obtain b where b: "evaluateMatchExpressionValues rx e n values = (b, None)"
    using Cons.prems(1) ne by (cases "evaluateMatchExpressionValues rx e n values") auto
  show ?case
  proof (cases b)
    case True
    then have "\<exists>(n, e)\<in>set m. \<not> fst (evaluateMatchExpressionValues rx e n values)"
      using Cons.prems(2) ne b by auto
    moreover have "\<forall>(n, e)\<in>set m. snd (evaluateMatchExpressionValues rx e n values) = None"
      using Cons.prems(1) by simp
    ultimately show ?thesis using Cons.IH True ne b by simp
  next
    case False
    then show ?thesis using ne b by simp
  qed
qed


lemma Name_of_simps [simp]:
  "Name_of [''Name'' \<mapsto> n] = n"
  "Name_of [''Name'' \<mapsto> n, ''Value'' \<mapsto> v] = n"
  by (simp_all add: Name_of_def index_string_def)

lemma MatchGetValues_all:
  assumes "\<forall>(n, e)\<in>set m. evaluateMatchExpressionValues rx e n values = (True, None)"
  shows "MatchGetValues rx m values =
     (True, Some (sort_Slice less_Name
        (map (\<lambda>(n, e). [''Name'' \<mapsto> n, ''Value'' \<mapsto> index_string values n]) m)), None)"
  using MatchGetValues_loop_all [OF assms, of "[]"] by (simp add: MatchGetValues_def)

lemma MatchGetValues_not_all:
  assumes "\<exists>(n, e)\<in>set m. evaluateMatchExpressionValues rx e n values \<noteq> (True, None)"
  shows "\<exists>err. MatchGetValues rx m values = (False, None, err)"
  using MatchGetValues_loop_not_all [OF assms, of "[]"] by (auto simp: MatchGetValues_def)


lemma MatchGetKeys_loop_all:
  "\<forall>(n, e)\<in>set m. evaluateMatchExpressionKeys e n keys = (True, None) \<Longrightarrow>
   MatchGetKeys_loop m keys ret = Inr (ret @ map (\<lambda>(n, e). [''Name'' \<mapsto> n]) m)"
  by (induction m arbitrary: ret) auto

lemma MatchGetKeys_loop_not_all:
  "\<exists>(n, e)\<in>set m. evaluateMatchExpressionKeys e n keys \<noteq> (True, None) \<Longrightarrow>
   \<exists>err. MatchGetKeys_loop m keys ret = Inl (False, None, err)"
proof (induction m arbitrary: ret)
  case Nil
  then show ?case by simp
next
  case (Cons ne m)
  obtain n e where ne: "ne = (n, e)" by (cases ne)
  show ?case
  proof (cases "evaluateMatchExpressionKeys e n keys = (True, None)")
    case True
    then have "\<exists>(n, e)\<in>set m. evaluateMatchExpressionKeys e n keys \<noteq> (True, None)"
      using Cons.prems ne by auto
    then show ?thesis using Cons.IH True ne by simp
  next
    case False
    then show ?thesis using ne
      by (cases "evaluateMatchExpressionKeys e n keys") (auto split: option.splits)
  qed
qed

lemma MatchGetKeys_loop_clean:
  "\<forall>(n, e)\<in>set m. snd (evaluateMatchExpressionKeys e n keys) = None \<Longrightarrow>
   \<exists>(n, e)\<in>set m. \<not> fst (evaluateMatchExpressionKeys e n keys) \<Longrightarrow>
   MatchGetKeys_loop m keys ret = Inl (False, None, None)"
proof (induction m arbitrary: ret)
  case Nil
  then show ?case by simp
next
  case (Cons ne m)
  obtain n e where ne: "ne = (n, e)" by (cases ne)
  obtain b where b: "evaluateMatchExpressionKeys e n keys = (b, None)"
    using Cons.prems(1) ne by (cases "evaluateMatchExpressionKeys e n keys") auto
  show ?case
  proof (cases b)
    case True
    then have "\<exists>(n, e)\<in>set m. \<not> fst (evaluateMatchExpressionKeys e n keys)"
      using Cons.prems(2) ne b by auto
    moreover have "\<forall>(n, e)\<in>set m. snd (evaluateMatchExpressionKeys e n keys) = None"
      using Cons.prems(1) by simp
    ultimately show ?thesis using Cons.IH True ne b by simp
  next
    case False
    then show ?thesis using ne b by simp
  qed
qed

lemma MatchGetKeys_all:
  assumes "\<forall>(n, e)\<in>set m. evaluateMatchExpressionKeys e n keys = (True, None)"
  shows "MatchGetKeys m keys =
     (True, Some (sort_Slice less_Name (map (\<lambda>(n, e). [''Name'' \<mapsto> n]) m)), None)"
  using MatchGetKeys_loop_all [OF assms, of "[]"] by (simp add: MatchGetKeys_def)

lemma MatchGetKeys_not_all:
  assumes "\<exists>(n, e)\<in>set m. evaluateMatchExpressionKeys e n keys \<noteq> (True, None)"
  shows "\<exists>err. MatchGetKeys m keys = (False, None, err)"
  using MatchGetKeys_loop_not_all [OF assms, of "[]"] by (auto simp: MatchGetKeys_def)

text \<open>
  Claim C5. When every entry of the set evaluates without error and at least one
  entry does not match, \<open>MatchGetValues\<close> and \<open>MatchGetKeys\<close> return
  \<open>(false, nil, nil)\<close>, in whatever order the entries are visited.
\<close>

theorem AND_clean_non_match:
  "((\<forall>(n, e)\<in>set m. snd (evaluateMatchExpressionValues rx e n vals) = None) \<and>
    (\<exists>(n, e)\<in>set m. \<not> fst (evaluateMatchExpressionValues rx e n vals))
      \<longrightarrow> MatchGetValues rx m vals = (False, None, None)) \<and>
   ((\<forall>(n, e)\<in>set m. snd (evaluateMatchExpressionKeys e n keys) = None) \<and>
    (\<exists>(n, e)\<in>set m. \<not> fst (evaluateMatchExpressionKeys e n keys))
      \<longrightarrow> MatchGetKeys m keys = (False, None, None))"
  using MatchGetValues_loop_clean [of m rx vals "[]"] MatchGetKeys_loop_clean [of m keys "[]"]
  by (simp add: MatchGetValues_def MatchGetKeys_def)

text \<open>
  C5 at a set of two entries, against values where the first entry does not match,
  and against keys where the second does not.
\<close>

theorem AND_clean_non_match_witness:
  "MatchGetValues literal_regexp
      [(''a'', \<lparr>Op = MatchIn, Value = [''x'']\<rparr>), (''b'', \<lparr>Op = MatchExists, Value = []\<rparr>)]
      [''a'' \<mapsto> ''y'', ''b'' \<mapsto> ''1''] = (False, None, None)
   \<and> MatchGetKeys
      [(''a'', \<lparr>Op = MatchExists, Value = []\<rparr>), (''b'', \<lparr>Op = MatchDoesNotExist, Value = []\<rparr>)]
      [''a'' \<mapsto> (), ''b'' \<mapsto> ()] = (False, None, None)"
  using AND_clean_non_match
    [of "[(''a'', \<lparr>Op = MatchIn, Value = [''x'']\<rparr>), (''b'', \<lparr>Op = MatchExists, Value = []\<rparr>)]"
        literal_regexp "[''a'' \<mapsto> ''y'', ''b'' \<mapsto> ''1'']"]
    AND_clean_non_match
    [of "[(''a'', \<lparr>Op = MatchExists, Value = []\<rparr>), (''b'', \<lparr>Op = MatchDoesNotExist, Value = []\<rparr>)]"
        _ _ "[''a'' \<mapsto> (), ''b'' \<mapsto> ()]"]
  by (simp add: eval_defs)

text \<open>
  Claim C9. For every candidate input, the empty expression set matches, with an
  empty, non-nil list of matched elements and no error.
\<close>

theorem empty_set_matches:
  "MatchGetKeys [] keys = (True, Some [], None) \<and>
   MatchGetValues rx [] vals = (True, Some [], None)"
  by (simp add: MatchGetKeys_def MatchGetValues_def)

text \<open>C9 at a key set and a value map of one entry each.\<close>

theorem empty_set_matches_witness:
  "MatchGetKeys [] [''a'' \<mapsto> ()] = (True, Some [], None) \<and>
   MatchGetValues literal_regexp [] [''a'' \<mapsto> ''1''] = (True, Some [], None)"
  using empty_set_matches [of "[''a'' \<mapsto> ()]" literal_regexp "[''a'' \<mapsto> ''1'']"] by simp

text \<open>
  Claim C10. \<open>MatchKeys\<close> and \<open>MatchValues\<close> return the boolean and the error of
  \<open>MatchGetKeys\<close> and \<open>MatchGetValues\<close>; \<open>MatchInstances\<close> returns true exactly when
  \<open>MatchGetInstances\<close> returns a non-empty slice, and returns its error.
\<close>

theorem boolean_entry_points_project:
  "MatchKeys m keys = (fst (MatchGetKeys m keys), snd (snd (MatchGetKeys m keys))) \<and>
   MatchValues rx m vals =
     (fst (MatchGetValues rx m vals), snd (snd (MatchGetValues rx m vals))) \<and>
   fst (MatchInstances rx ms instances) =
     (\<exists>v. fst (MatchGetInstances rx ms instances) = Some v \<and> v \<noteq> []) \<and>
   snd (MatchInstances rx ms instances) = snd (MatchGetInstances rx ms instances)"
  by (auto simp: MatchKeys_def MatchValues_def MatchInstances_def len_def
      split: prod.splits option.splits)

text \<open>
  C10 at a key set, at the values \<open>{"cpu.cores": "8"}\<close> against the set
  \<open>{"cpu.cores": {Op: Gt, Value: ["4"]}}\<close>, and at one record that does not satisfy
  this set, where \<open>MatchGetInstances\<close> returns the empty slice.
\<close>

theorem boolean_entry_points_project_witness:
  "MatchGetKeys [(''a'', \<lparr>Op = MatchExists, Value = []\<rparr>)] [''a'' \<mapsto> ()]
     = (True, Some [[''Name'' \<mapsto> ''a'']], None)
   \<and> MatchKeys [(''a'', \<lparr>Op = MatchExists, Value = []\<rparr>)] [''a'' \<mapsto> ()] = (True, None)
   \<and> MatchGetValues literal_regexp [(''cpu.cores'', \<lparr>Op = MatchGt, Value = [''4'']\<rparr>)]
       [''cpu.cores'' \<mapsto> ''8'']
     = (True, Some [[''Name'' \<mapsto> ''cpu.cores'', ''Value'' \<mapsto> ''8'']], None)
   \<and> MatchValues literal_regexp [(''cpu.cores'', \<lparr>Op = MatchGt, Value = [''4'']\<rparr>)]
       [''cpu.cores'' \<mapsto> ''8''] = (True, None)
   \<and> MatchGetInstances literal_regexp
       (nth [[(''cpu.cores'', \<lparr>Op = MatchGt, Value = [''4'']\<rparr>)]])
       [\<lparr>Attributes = [''cpu.cores'' \<mapsto> ''2'']\<rparr>] = (Some [], None)
   \<and> MatchInstances literal_regexp
       (nth [[(''cpu.cores'', \<lparr>Op = MatchGt, Value = [''4'']\<rparr>)]])
       [\<lparr>Attributes = [''cpu.cores'' \<mapsto> ''2'']\<rparr>] = (False, None)"
proof -
  let ?mk = "[(''a'', \<lparr>Op = MatchExists, Value = []\<rparr>)]"
  let ?m = "[(''cpu.cores'', \<lparr>Op = MatchGt, Value = [''4'']\<rparr>)]"
  let ?is = "[\<lparr>Attributes = [''cpu.cores'' \<mapsto> ''2'']\<rparr>]"
  have k: "MatchGetKeys ?mk [''a'' \<mapsto> ()] = (True, Some [[''Name'' \<mapsto> ''a'']], None)"
    by (simp add: MatchGetKeys_def eval_defs)
  have v: "MatchGetValues literal_regexp ?m [''cpu.cores'' \<mapsto> ''8'']
      = (True, Some [[''Name'' \<mapsto> ''cpu.cores'', ''Value'' \<mapsto> ''8'']], None)"
    by (simp add: MatchGetValues_def eval_defs Atoi_eval)
  have "MatchGetValues literal_regexp ?m [''cpu.cores'' \<mapsto> ''2''] = (False, None, None)"
    by (simp add: MatchGetValues_def eval_defs Atoi_eval)
  then have i: "MatchGetInstances literal_regexp (nth [?m]) ?is = (Some [], None)"
    by (simp add: MatchGetInstances_def MatchValues_def)
  show ?thesis
    using
      boolean_entry_points_project
        [of ?mk "[''a'' \<mapsto> ()]" literal_regexp "[''cpu.cores'' \<mapsto> ''8'']" "nth [?m]" ?is]
      boolean_entry_points_project
        [of ?m "[''a'' \<mapsto> ()]" literal_regexp "[''cpu.cores'' \<mapsto> ''8'']" "nth [?m]" ?is]
      k v i
    by (simp add: prod_eq_iff)
qed

section \<open>Properties of the instance evaluator\<close>

lemma MatchValues_cases:
  "(\<forall>(n, e)\<in>set m. evaluateMatchExpressionValues rx e n a = (True, None)) \<and>
     MatchValues rx m a = (True, None)
   \<or> \<not> (\<forall>(n, e)\<in>set m. evaluateMatchExpressionValues rx e n a = (True, None)) \<and>
     (\<exists>err. MatchValues rx m a = (False, err))"
proof (cases "\<forall>(n, e)\<in>set m. evaluateMatchExpressionValues rx e n a = (True, None)")
  case True
  then show ?thesis using MatchGetValues_all [OF True] by (simp add: MatchValues_def)
next
  case False
  then have "\<exists>(n, e)\<in>set m. evaluateMatchExpressionValues rx e n a \<noteq> (True, None)"
    by auto
  from MatchGetValues_not_all [OF this] show ?thesis
    using False by (auto simp: MatchValues_def)
qed

lemma fst_MatchValues:
  "fst (MatchValues rx m a) \<longleftrightarrow>
     (\<forall>(n, e)\<in>set m. evaluateMatchExpressionValues rx e n a = (True, None))"
  using MatchValues_cases [of m rx a] by auto

text \<open>
  Whether a record satisfies the set does not depend on the order in which the call
  ranges over the set.
\<close>

lemma MatchValues_match_order_independent:
  assumes "set m = set m'"
  shows "fst (MatchValues rx m a) = fst (MatchValues rx m' a)"
  by (simp add: fst_MatchValues assms)

text \<open>
  The loop from record \<open>k\<close> on. When no call returns an error, it appends the
  records that satisfy the set \<open>m\<close> of which every \<open>ms j\<close> lists the entries.
\<close>

lemma MatchGetInstances_loop_ok:
  "\<forall>j<length instances. set (ms (k + j)) = set m \<Longrightarrow>
   \<forall>j<length instances. snd (MatchValues rx (ms (k + j)) (Attributes (instances ! j))) = None \<Longrightarrow>
   MatchGetInstances_loop rx ms k instances ret =
     (Some (ret @ filter (\<lambda>a. fst (MatchValues rx m a)) (map Attributes instances)), None)"
proof (induction instances arbitrary: k ret)
  case Nil
  then show ?case by simp
next
  case (Cons i instances)
  have hd_set: "set (ms k) = set m"
    using Cons.prems(1) by force
  have "snd (MatchValues rx (ms k) (Attributes i)) = None"
    using Cons.prems(2) by force
  then obtain b where b: "MatchValues rx (ms k) (Attributes i) = (b, None)"
    by (cases "MatchValues rx (ms k) (Attributes i)") auto
  have b': "b = fst (MatchValues rx m (Attributes i))"
    using MatchValues_match_order_independent [OF hd_set, of rx "Attributes i"] b by simp
  have tl_set: "\<forall>j<length instances. set (ms (Suc k + j)) = set m"
  proof (intro allI impI)
    fix j assume "j < length instances"
    then have "Suc j < length (i # instances)" by simp
    with Cons.prems(1) have "set (ms (k + Suc j)) = set m" by blast
    then show "set (ms (Suc k + j)) = set m" by simp
  qed
  have tl_ok: "\<forall>j<length instances.
      snd (MatchValues rx (ms (Suc k + j)) (Attributes (instances ! j))) = None"
  proof (intro allI impI)
    fix j assume "j < length instances"
    then have "Suc j < length (i # instances)" by simp
    with Cons.prems(2)
    have "snd (MatchValues rx (ms (k + Suc j)) (Attributes ((i # instances) ! Suc j))) = None"
      by blast
    then show "snd (MatchValues rx (ms (Suc k + j)) (Attributes (instances ! j))) = None"
      by simp
  qed
  show ?case
    using Cons.IH [OF tl_set tl_ok] b b' by simp
qed

text \<open>
  When the call for record \<open>n\<close> (counted from \<open>k\<close>) is the first that returns an
  error, the loop returns nil and this error.
\<close>

lemma MatchGetInstances_loop_error:
  "n < length instances \<Longrightarrow>
   snd (MatchValues rx (ms (k + n)) (Attributes (instances ! n))) = Some err \<Longrightarrow>
   \<forall>j<n. snd (MatchValues rx (ms (k + j)) (Attributes (instances ! j))) = None \<Longrightarrow>
   MatchGetInstances_loop rx ms k instances ret = (None, Some err)"
proof (induction instances arbitrary: k n ret)
  case Nil
  then show ?case by simp
next
  case (Cons i instances)
  show ?case
  proof (cases n)
    case 0
    then have "snd (MatchValues rx (ms k) (Attributes i)) = Some err"
      using Cons.prems(2) by simp
    then obtain b where "MatchValues rx (ms k) (Attributes i) = (b, Some err)"
      by (cases "MatchValues rx (ms k) (Attributes i)") auto
    then show ?thesis by simp
  next
    case (Suc n')
    have "snd (MatchValues rx (ms (k + 0)) (Attributes ((i # instances) ! 0))) = None"
      using Cons.prems(3) Suc by blast
    then obtain b where b: "MatchValues rx (ms k) (Attributes i) = (b, None)"
      by (cases "MatchValues rx (ms k) (Attributes i)") auto
    have 1: "n' < length instances"
      using Cons.prems(1) Suc by simp
    have 2: "snd (MatchValues rx (ms (Suc k + n')) (Attributes (instances ! n'))) = Some err"
      using Cons.prems(2) Suc by simp
    have 3: "\<forall>j<n'. snd (MatchValues rx (ms (Suc k + j)) (Attributes (instances ! j))) = None"
    proof (intro allI impI)
      fix j assume "j < n'"
      then have "Suc j < n" using Suc by simp
      with Cons.prems(3)
      have "snd (MatchValues rx (ms (k + Suc j)) (Attributes ((i # instances) ! Suc j))) = None"
        by blast
      then show "snd (MatchValues rx (ms (Suc k + j)) (Attributes (instances ! j))) = None"
        by simp
    qed
    show ?thesis
      using Cons.IH [OF 1 2 3] b by simp
  qed
qed

text \<open>
  Claim C7. Let every call of \<open>MatchValues\<close> range over the entries of the same set
  \<open>m\<close>, each call in an order of its own. When no call returns an error,
  \<open>MatchGetInstances\<close> returns the attribute maps of exactly the records that satisfy
  every entry of the set, in the order of the input, and \<open>MatchInstances\<close> returns
  true if and only if there is such a record. When some call returns an error,
  \<open>MatchGetInstances\<close> returns nil and the error of the first such call, and
  \<open>MatchInstances\<close> returns false and that error.
\<close>

theorem instances_selected_in_order:
  assumes "\<forall>k<length instances. set (ms k) = set m"
  shows
   "((\<forall>k<length instances. snd (MatchValues rx (ms k) (Attributes (instances ! k))) = None) \<longrightarrow>
      MatchGetInstances rx ms instances =
        (Some (filter
                 (\<lambda>a. \<forall>(n, e)\<in>set m. evaluateMatchExpressionValues rx e n a = (True, None))
                 (map Attributes instances)), None) \<and>
      MatchInstances rx ms instances =
        (\<exists>i\<in>set instances.
            \<forall>(n, e)\<in>set m. evaluateMatchExpressionValues rx e n (Attributes i) = (True, None),
         None)) \<and>
    ((\<exists>k<length instances. snd (MatchValues rx (ms k) (Attributes (instances ! k))) \<noteq> None) \<longrightarrow>
      (\<exists>n err. n < length instances \<and>
         snd (MatchValues rx (ms n) (Attributes (instances ! n))) = Some err \<and>
         (\<forall>j<n. snd (MatchValues rx (ms j) (Attributes (instances ! j))) = None) \<and>
         MatchGetInstances rx ms instances = (None, Some err) \<and>
         MatchInstances rx ms instances = (False, Some err)))"
proof (intro conjI impI)
  assume ok: "\<forall>k<length instances. snd (MatchValues rx (ms k) (Attributes (instances ! k))) = None"
  let ?sat = "\<lambda>a. \<forall>(n, e)\<in>set m. evaluateMatchExpressionValues rx e n a = (True, None)"
  have sat: "(\<lambda>a. fst (MatchValues rx m a)) = ?sat"
    by (rule ext) (rule fst_MatchValues)
  have "MatchGetInstances_loop rx ms 0 instances [] =
      (Some ([] @ filter (\<lambda>a. fst (MatchValues rx m a)) (map Attributes instances)), None)"
    by (rule MatchGetInstances_loop_ok) (use assms ok in simp_all)
  then show get: "MatchGetInstances rx ms instances =
      (Some (filter ?sat (map Attributes instances)), None)"
    by (simp add: MatchGetInstances_def sat)
  show "MatchInstances rx ms instances = (\<exists>i\<in>set instances. ?sat (Attributes i), None)"
    unfolding MatchInstances_def get
    by (simp add: len_def filter_empty_conv del: split_paired_All)
next
  let ?P = "\<lambda>k. k < length instances \<and>
      snd (MatchValues rx (ms k) (Attributes (instances ! k))) \<noteq> None"
  assume "\<exists>k<length instances. snd (MatchValues rx (ms k) (Attributes (instances ! k))) \<noteq> None"
  then have "\<exists>k. ?P k" by blast
  then obtain n where n: "?P n" and least: "\<forall>j<n. \<not> ?P j"
    using exists_least_iff [of ?P] by blast
  from n obtain err where err: "snd (MatchValues rx (ms n) (Attributes (instances ! n))) = Some err"
    by auto
  have before: "\<forall>j<n. snd (MatchValues rx (ms j) (Attributes (instances ! j))) = None"
    using least n by auto
  have "MatchGetInstances_loop rx ms 0 instances [] = (None, Some err)"
    by (rule MatchGetInstances_loop_error [where n = n]) (use n err before in simp_all)
  then have "MatchGetInstances rx ms instances = (None, Some err) \<and>
      MatchInstances rx ms instances = (False, Some err)"
    by (simp add: MatchGetInstances_def MatchInstances_def len_def)
  with n err before
  show "\<exists>n err. n < length instances \<and>
         snd (MatchValues rx (ms n) (Attributes (instances ! n))) = Some err \<and>
         (\<forall>j<n. snd (MatchValues rx (ms j) (Attributes (instances ! j))) = None) \<and>
         MatchGetInstances rx ms instances = (None, Some err) \<and>
         MatchInstances rx ms instances = (False, Some err)"
    by blast
qed

text \<open>
  C7 at a set \<open>{a: Gt ["1"], b: Gt ["1"]}\<close> and the records \<open>{a: 0, b: abc}\<close> and
  \<open>{a: abc, b: 0}\<close>. When the call for the first record visits \<open>a\<close> first and the
  call for the second visits \<open>b\<close> first, no call returns an error and the result is
  the empty slice; when both calls visit \<open>b\<close> first, the first call returns the
  error of \<open>abc\<close>. Then at two records of which only the second has the vendor \<open>X\<close>.
\<close>

theorem instances_selected_in_order_witness:
  "MatchGetInstances literal_regexp
      (nth [[(''a'', \<lparr>Op = MatchGt, Value = [''1'']\<rparr>), (''b'', \<lparr>Op = MatchGt, Value = [''1'']\<rparr>)],
            [(''b'', \<lparr>Op = MatchGt, Value = [''1'']\<rparr>), (''a'', \<lparr>Op = MatchGt, Value = [''1'']\<rparr>)]])
      [\<lparr>Attributes = [''a'' \<mapsto> ''0'', ''b'' \<mapsto> ''abc'']\<rparr>,
       \<lparr>Attributes = [''a'' \<mapsto> ''abc'', ''b'' \<mapsto> ''0'']\<rparr>]
     = (Some [], None)
   \<and> MatchGetInstances literal_regexp
      (nth [[(''b'', \<lparr>Op = MatchGt, Value = [''1'']\<rparr>), (''a'', \<lparr>Op = MatchGt, Value = [''1'']\<rparr>)],
            [(''b'', \<lparr>Op = MatchGt, Value = [''1'']\<rparr>), (''a'', \<lparr>Op = MatchGt, Value = [''1'']\<rparr>)]])
      [\<lparr>Attributes = [''a'' \<mapsto> ''0'', ''b'' \<mapsto> ''abc'']\<rparr>,
       \<lparr>Attributes = [''a'' \<mapsto> ''abc'', ''b'' \<mapsto> ''0'']\<rparr>]
     = (None, Some (NotANumber ''abc''))
   \<and> MatchGetInstances literal_regexp
      (nth [[(''vendor'', \<lparr>Op = MatchIn, Value = [''X'']\<rparr>)],
            [(''vendor'', \<lparr>Op = MatchIn, Value = [''X'']\<rparr>)]])
      [\<lparr>Attributes = [''vendor'' \<mapsto> ''Y'']\<rparr>, \<lparr>Attributes = [''vendor'' \<mapsto> ''X'']\<rparr>]
     = (Some [[''vendor'' \<mapsto> ''X'']], None)
   \<and> MatchInstances literal_regexp
      (nth [[(''vendor'', \<lparr>Op = MatchIn, Value = [''X'']\<rparr>)],
            [(''vendor'', \<lparr>Op = MatchIn, Value = [''X'']\<rparr>)]])
      [\<lparr>Attributes = [''vendor'' \<mapsto> ''Y'']\<rparr>, \<lparr>Attributes = [''vendor'' \<mapsto> ''X'']\<rparr>]
     = (True, None)"
proof -
  let ?g = "\<lparr>Op = MatchGt, Value = [''1'']\<rparr>"
  let ?ab = "[(''a'', ?g), (''b'', ?g)]"
  let ?ba = "[(''b'', ?g), (''a'', ?g)]"
  let ?r1 = "[''a'' \<mapsto> ''0'', ''b'' \<mapsto> ''abc'']"
  let ?r2 = "[''a'' \<mapsto> ''abc'', ''b'' \<mapsto> ''0'']"
  let ?rs = "[\<lparr>Attributes = ?r1\<rparr>, \<lparr>Attributes = ?r2\<rparr>]"
  let ?in = "\<lparr>Op = MatchIn, Value = [''X'']\<rparr>"
  let ?m = "[(''vendor'', ?in)]"
  let ?is = "[\<lparr>Attributes = [''vendor'' \<mapsto> ''Y'']\<rparr>, \<lparr>Attributes = [''vendor'' \<mapsto> ''X'']\<rparr>]"
  have 1: "MatchValues literal_regexp ?ab ?r1 = (False, None)"
    and 2: "MatchValues literal_regexp ?ba ?r2 = (False, None)"
    and 3: "MatchValues literal_regexp ?ba ?r1 = (False, Some (NotANumber ''abc''))"
    and 4: "MatchValues literal_regexp ?m [''vendor'' \<mapsto> ''Y''] = (False, None)"
    and 5: "MatchValues literal_regexp ?m [''vendor'' \<mapsto> ''X''] = (True, None)"
    by (simp_all add: MatchValues_def MatchGetValues_def eval_defs Atoi_eval)
  have 6: "evaluateMatchExpressionValues literal_regexp ?g ''a'' ?r1 = (False, None)"
    and 7: "evaluateMatchExpressionValues literal_regexp ?g ''b'' ?r2 = (False, None)"
    and 8: "evaluateMatchExpressionValues literal_regexp ?in ''vendor'' [''vendor'' \<mapsto> ''Y'']
        = (False, None)"
    and 9: "evaluateMatchExpressionValues literal_regexp ?in ''vendor'' [''vendor'' \<mapsto> ''X'']
        = (True, None)"
    by (simp_all add: eval_defs Atoi_eval)
  have A: "MatchGetInstances literal_regexp (nth [?ab, ?ba]) ?rs = (Some [], None)"
  proof -
    have sets: "\<forall>k<length ?rs. set ([?ab, ?ba] ! k) = set ?ab"
      by (auto simp: less_Suc_eq)
    have ok: "\<forall>k<length ?rs.
        snd (MatchValues literal_regexp ([?ab, ?ba] ! k) (Attributes (?rs ! k))) = None"
      by (auto simp: less_Suc_eq 1 2)
    from instances_selected_in_order [OF sets, of literal_regexp] ok
    have "MatchGetInstances literal_regexp (nth [?ab, ?ba]) ?rs =
        (Some (filter
           (\<lambda>a. \<forall>(n, e)\<in>set ?ab.
                  evaluateMatchExpressionValues literal_regexp e n a = (True, None))
           (map Attributes ?rs)), None)"
      by blast
    then show ?thesis by (simp add: 6 7)
  qed
  have B: "MatchGetInstances literal_regexp (nth [?ba, ?ba]) ?rs
      = (None, Some (NotANumber ''abc''))"
  proof -
    have sets: "\<forall>k<length ?rs. set ([?ba, ?ba] ! k) = set ?ba"
      by (auto simp: less_Suc_eq)
    have "snd (MatchValues literal_regexp ([?ba, ?ba] ! 0) (Attributes (?rs ! 0))) \<noteq> None"
      by (simp add: 3)
    then have ex: "\<exists>k<length ?rs.
        snd (MatchValues literal_regexp ([?ba, ?ba] ! k) (Attributes (?rs ! k))) \<noteq> None"
      by (intro exI [of _ 0]) simp
    from instances_selected_in_order [OF sets, of literal_regexp] ex
    obtain n err where
      e: "snd (MatchValues literal_regexp ([?ba, ?ba] ! n) (Attributes (?rs ! n))) = Some err"
      and b: "\<forall>j<n. snd (MatchValues literal_regexp ([?ba, ?ba] ! j) (Attributes (?rs ! j)))
                = None"
      and r: "MatchGetInstances literal_regexp (nth [?ba, ?ba]) ?rs = (None, Some err)"
      by blast
    have "n = 0"
    proof (rule ccontr)
      assume "n \<noteq> 0"
      then have "0 < n" by simp
      with b have "snd (MatchValues literal_regexp ([?ba, ?ba] ! 0) (Attributes (?rs ! 0))) = None"
        by blast
      then show False by (simp add: 3)
    qed
    then have "err = NotANumber ''abc''"
      using e by (simp add: 3)
    then show ?thesis using r by simp
  qed
  have C: "MatchGetInstances literal_regexp (nth [?m, ?m]) ?is = (Some [[''vendor'' \<mapsto> ''X'']], None)
      \<and> MatchInstances literal_regexp (nth [?m, ?m]) ?is = (True, None)"
  proof -
    have sets: "\<forall>k<length ?is. set ([?m, ?m] ! k) = set ?m"
      by (auto simp: less_Suc_eq)
    have ok: "\<forall>k<length ?is.
        snd (MatchValues literal_regexp ([?m, ?m] ! k) (Attributes (?is ! k))) = None"
      by (auto simp: less_Suc_eq 4 5)
    from instances_selected_in_order [OF sets, of literal_regexp] ok
    have "MatchGetInstances literal_regexp (nth [?m, ?m]) ?is =
        (Some (filter
           (\<lambda>a. \<forall>(n, e)\<in>set ?m.
                  evaluateMatchExpressionValues literal_regexp e n a = (True, None))
           (map Attributes ?is)), None) \<and>
      MatchInstances literal_regexp (nth [?m, ?m]) ?is =
        (\<exists>i\<in>set ?is. \<forall>(n, e)\<in>set ?m.
            evaluateMatchExpressionValues literal_regexp e n (Attributes i) = (True, None),
         None)"
      by blast
    then show ?thesis by (simp add: 8 9)
  qed
  from A B C show ?thesis by simp
qed

section \<open>Order and determinism of the matched elements\<close>

lemma MatchValueNames_loop_ok:
  "\<forall>(k, v)\<in>set vs. snd (evaluateMatchExpression rx e True k) = None \<Longrightarrow>
   MatchValueNames_loop rx e vs ret =
     Inr (ret @ map (\<lambda>(k, v). [''Name'' \<mapsto> k, ''Value'' \<mapsto> v])
                  (filter (\<lambda>(k, v). fst (evaluateMatchExpression rx e True k)) vs))"
proof (induction vs arbitrary: ret)
  case Nil
  then show ?case by simp
next
  case (Cons kv vs)
  obtain k v where kv: "kv = (k, v)" by (cases kv)
  obtain b where b: "evaluateMatchExpression rx e True k = (b, None)"
    using Cons.prems kv by (cases "evaluateMatchExpression rx e True k") auto
  have "\<forall>(k, v)\<in>set vs. snd (evaluateMatchExpression rx e True k) = None"
    using Cons.prems by simp
  then show ?case using Cons.IH kv b by auto
qed

lemma MatchValueNames_loop_error:
  "\<exists>(k, v)\<in>set vs. snd (evaluateMatchExpression rx e True k) \<noteq> None \<Longrightarrow>
   \<exists>err. MatchValueNames_loop rx e vs ret = Inl err"
proof (induction vs arbitrary: ret)
  case Nil
  then show ?case by simp
next
  case (Cons kv vs)
  obtain k v where kv: "kv = (k, v)" by (cases kv)
  show ?case
  proof (cases "snd (evaluateMatchExpression rx e True k)")
    case None
    then obtain b where b: "evaluateMatchExpression rx e True k = (b, None)"
      by (cases "evaluateMatchExpression rx e True k") auto
    have "\<exists>(k, v)\<in>set vs. snd (evaluateMatchExpression rx e True k) \<noteq> None"
      using Cons.prems None kv by auto
    from Cons.IH [OF this] show ?thesis using b kv by simp
  next
    case (Some err)
    then obtain b where "evaluateMatchExpression rx e True k = (b, Some err)"
      by (cases "evaluateMatchExpression rx e True k") auto
    then show ?thesis using kv by simp
  qed
qed

lemma MatchKeyNames_loop_ok:
  "\<forall>k\<in>set ks. snd (evaluateMatchExpression rx e True k) = None \<Longrightarrow>
   MatchKeyNames_loop rx e ks ret =
     Inr (ret @ map (\<lambda>k. [''Name'' \<mapsto> k])
                  (filter (\<lambda>k. fst (evaluateMatchExpression rx e True k)) ks))"
proof (induction ks arbitrary: ret)
  case Nil
  then show ?case by simp
next
  case (Cons k ks)
  obtain b where b: "evaluateMatchExpression rx e True k = (b, None)"
    using Cons.prems by (cases "evaluateMatchExpression rx e True k") auto
  have "\<forall>k\<in>set ks. snd (evaluateMatchExpression rx e True k) = None"
    using Cons.prems by simp
  then show ?case using Cons.IH b by auto
qed

lemma MatchKeyNames_loop_error:
  "\<exists>k\<in>set ks. snd (evaluateMatchExpression rx e True k) \<noteq> None \<Longrightarrow>
   \<exists>err. MatchKeyNames_loop rx e ks ret = Inl err"
proof (induction ks arbitrary: ret)
  case Nil
  then show ?case by simp
next
  case (Cons k ks)
  show ?case
  proof (cases "snd (evaluateMatchExpression rx e True k)")
    case None
    then obtain b where b: "evaluateMatchExpression rx e True k = (b, None)"
      by (cases "evaluateMatchExpression rx e True k") auto
    have "\<exists>k\<in>set ks. snd (evaluateMatchExpression rx e True k) \<noteq> None"
      using Cons.prems None by auto
    from Cons.IH [OF this] show ?thesis using b by simp
  next
    case (Some err)
    then obtain b where "evaluateMatchExpression rx e True k = (b, Some err)"
      by (cases "evaluateMatchExpression rx e True k") auto
    then show ?thesis by simp
  qed
qed

text \<open>The list that each evaluator returns, in closed form.\<close>

lemma MatchGetValues_list:
  "fst (snd (MatchGetValues rx m values)) =
     (if \<forall>(n, e)\<in>set m. evaluateMatchExpressionValues rx e n values = (True, None)
      then Some (sort_Slice less_Name
              (map (\<lambda>(n, e). [''Name'' \<mapsto> n, ''Value'' \<mapsto> index_string values n]) m))
      else None)"
proof (cases "\<forall>(n, e)\<in>set m. evaluateMatchExpressionValues rx e n values = (True, None)")
  case True
  then show ?thesis using MatchGetValues_all [OF True] by simp
next
  case False
  then have "\<exists>(n, e)\<in>set m. evaluateMatchExpressionValues rx e n values \<noteq> (True, None)"
    by auto
  from MatchGetValues_not_all [OF this] show ?thesis using False by auto
qed

lemma MatchGetKeys_list:
  "fst (snd (MatchGetKeys m keys)) =
     (if \<forall>(n, e)\<in>set m. evaluateMatchExpressionKeys e n keys = (True, None)
      then Some (sort_Slice less_Name (map (\<lambda>(n, e). [''Name'' \<mapsto> n]) m))
      else None)"
proof (cases "\<forall>(n, e)\<in>set m. evaluateMatchExpressionKeys e n keys = (True, None)")
  case True
  then show ?thesis using MatchGetKeys_all [OF True] by simp
next
  case False
  then have "\<exists>(n, e)\<in>set m. evaluateMatchExpressionKeys e n keys \<noteq> (True, None)"
    by auto
  from MatchGetKeys_not_all [OF this] show ?thesis using False by auto
qed

lemma MatchValueNames_list:
  "fst (snd (MatchValueNames rx e vs)) =
     (if \<forall>(k, v)\<in>set vs. snd (evaluateMatchExpression rx e True k) = None
      then Some (sort_Slice less_Name
              (map (\<lambda>(k, v). [''Name'' \<mapsto> k, ''Value'' \<mapsto> v])
                 (filter (\<lambda>(k, v). fst (evaluateMatchExpression rx e True k)) vs)))
      else None)"
proof (cases "\<forall>(k, v)\<in>set vs. snd (evaluateMatchExpression rx e True k) = None")
  case True
  then show ?thesis
    using MatchValueNames_loop_ok [OF True, of "[]"] by (simp add: MatchValueNames_def Let_def)
next
  case False
  then have "\<exists>(k, v)\<in>set vs. snd (evaluateMatchExpression rx e True k) \<noteq> None"
    by auto
  from MatchValueNames_loop_error [OF this, of "[]"] show ?thesis
    using False by (auto simp: MatchValueNames_def)
qed

lemma MatchKeyNames_list:
  "fst (snd (MatchKeyNames rx e ks)) =
     (if \<forall>k\<in>set ks. snd (evaluateMatchExpression rx e True k) = None
      then Some (sort_Slice less_Name
              (map (\<lambda>k. [''Name'' \<mapsto> k])
                 (filter (\<lambda>k. fst (evaluateMatchExpression rx e True k)) ks)))
      else None)"
proof (cases "\<forall>k\<in>set ks. snd (evaluateMatchExpression rx e True k) = None")
  case True
  then show ?thesis
    using MatchKeyNames_loop_ok [OF True, of "[]"] by (simp add: MatchKeyNames_def Let_def)
next
  case False
  then have "\<exists>k\<in>set ks. snd (evaluateMatchExpression rx e True k) \<noteq> None"
    by auto
  from MatchKeyNames_loop_error [OF this, of "[]"] show ?thesis
    using False by (auto simp: MatchKeyNames_def)
qed

text \<open>Two lists of the entries of one map are permutations of each other.\<close>

lemma same_map_mset:
  assumes "distinct (map fst xs)" and "distinct (map fst ys)" and "set xs = set ys"
  shows "mset xs = mset ys"
  using assms by (simp add: distinct_map set_eq_iff_mset_eq_distinct)

lemma sort_Slice_map_filter:
  assumes "mset xs = mset ys" and "distinct (map g xs)" and "\<And>x. Name_of (f x) = g x"
  shows "sort_Slice less_Name (map f (filter P xs)) = sort_Slice less_Name (map f (filter P ys))"
proof (rule sort_Slice_order_irrelevant)
  show "mset (map f (filter P xs)) = mset (map f (filter P ys))"
    using assms(1) by simp
  have "Name_of \<circ> f = g"
    by (rule ext) (simp add: assms(3))
  then have "map Name_of (map f (filter P xs)) = map g (filter P xs)"
    by simp
  moreover have "distinct (map g (filter P xs))"
    using assms(2) by (rule distinct_map_filter)
  ultimately show "distinct (map Name_of (map f (filter P xs)))"
    by (simp only:)
qed

text \<open>
  Claim C8. Two evaluations of the same rule on the same data, which may range over
  the Go maps in different orders (\<open>m\<close> and \<open>m'\<close> list the entries of one expression
  set, \<open>vs\<close> and \<open>vs'\<close> those of one value map, \<open>ks\<close> and \<open>ks'\<close> those of one key set),
  return the same list of matched elements; and every list that \<open>MatchGetValues\<close>,
  \<open>MatchGetKeys\<close>, \<open>MatchValueNames\<close> or \<open>MatchKeyNames\<close> returns is sorted
  ascending by the field \<open>Name\<close>.
\<close>

theorem matched_elements_sorted_order_independent:
  assumes "distinct (map fst m)" and "distinct (map fst m')" and "set m = set m'"
    and "distinct (map fst vs)" and "distinct (map fst vs')" and "set vs = set vs'"
    and "distinct ks" and "distinct ks'" and "set ks = set ks'"
  shows
    "fst (snd (MatchGetValues rx m vals)) = fst (snd (MatchGetValues rx m' vals)) \<and>
     fst (snd (MatchGetKeys m keys)) = fst (snd (MatchGetKeys m' keys)) \<and>
     fst (snd (MatchValueNames rx e vs)) = fst (snd (MatchValueNames rx e vs')) \<and>
     fst (snd (MatchKeyNames rx e ks)) = fst (snd (MatchKeyNames rx e ks')) \<and>
     (\<forall>l. fst (snd (MatchGetValues rx m vals)) = Some l \<longrightarrow> sorted (map Name_of l)) \<and>
     (\<forall>l. fst (snd (MatchGetKeys m keys)) = Some l \<longrightarrow> sorted (map Name_of l)) \<and>
     (\<forall>l. fst (snd (MatchValueNames rx e vs)) = Some l \<longrightarrow> sorted (map Name_of l)) \<and>
     (\<forall>l. fst (snd (MatchKeyNames rx e ks)) = Some l \<longrightarrow> sorted (map Name_of l))"
proof -
  have m: "mset m = mset m'"
    using assms(1-3) by (rule same_map_mset)
  have vs: "mset vs = mset vs'"
    using assms(4-6) by (rule same_map_mset)
  have ks: "mset ks = mset ks'"
    using assms(7-9) by (simp add: set_eq_iff_mset_eq_distinct)
  have 1: "fst (snd (MatchGetValues rx m vals)) = fst (snd (MatchGetValues rx m' vals))"
    using sort_Slice_map_filter
      [OF m assms(1), of "\<lambda>(n, e). [''Name'' \<mapsto> n, ''Value'' \<mapsto> index_string vals n]"
         "\<lambda>x. True"]
    by (simp add: MatchGetValues_list assms(3) split_def)
  have 2: "fst (snd (MatchGetKeys m keys)) = fst (snd (MatchGetKeys m' keys))"
    using sort_Slice_map_filter [OF m assms(1), of "\<lambda>(n, e). [''Name'' \<mapsto> n]" "\<lambda>x. True"]
    by (simp add: MatchGetKeys_list assms(3) split_def)
  have 3: "fst (snd (MatchValueNames rx e vs)) = fst (snd (MatchValueNames rx e vs'))"
    using sort_Slice_map_filter
      [OF vs assms(4), of "\<lambda>(k, v). [''Name'' \<mapsto> k, ''Value'' \<mapsto> v]"
         "\<lambda>(k, v). fst (evaluateMatchExpression rx e True k)"]
    by (simp add: MatchValueNames_list assms(6) split_def)
  have 4: "fst (snd (MatchKeyNames rx e ks)) = fst (snd (MatchKeyNames rx e ks'))"
    using sort_Slice_map_filter
      [OF ks, of "\<lambda>k. k" "\<lambda>k. [''Name'' \<mapsto> k]"
         "\<lambda>k. fst (evaluateMatchExpression rx e True k)"] assms(7)
    by (simp add: MatchKeyNames_list assms(9))
  have 5: "\<forall>l. fst (snd (MatchGetValues rx m vals)) = Some l \<longrightarrow> sorted (map Name_of l)"
    by (auto simp: MatchGetValues_list sorted_sort_Slice split: if_splits)
  have 6: "\<forall>l. fst (snd (MatchGetKeys m keys)) = Some l \<longrightarrow> sorted (map Name_of l)"
    by (auto simp: MatchGetKeys_list sorted_sort_Slice split: if_splits)
  have 7: "\<forall>l. fst (snd (MatchValueNames rx e vs)) = Some l \<longrightarrow> sorted (map Name_of l)"
    by (auto simp: MatchValueNames_list sorted_sort_Slice split: if_splits)
  have 8: "\<forall>l. fst (snd (MatchKeyNames rx e ks)) = Some l \<longrightarrow> sorted (map Name_of l)"
    by (auto simp: MatchKeyNames_list sorted_sort_Slice split: if_splits)
  from 1 2 3 4 5 6 7 8 show ?thesis by (intro conjI)
qed

text \<open>
  C8 at a set of two entries visited in both orders, and at a regular expression
  matched against the names of a value map and of a key set of three entries.
\<close>

theorem matched_elements_sorted_order_independent_witness:
  "fst (snd (MatchGetValues literal_regexp
       [(''b'', \<lparr>Op = MatchExists, Value = []\<rparr>), (''a'', \<lparr>Op = MatchExists, Value = []\<rparr>)]
       [''a'' \<mapsto> ''8'', ''b'' \<mapsto> ''x'']))
     = Some [[''Name'' \<mapsto> ''a'', ''Value'' \<mapsto> ''8''], [''Name'' \<mapsto> ''b'', ''Value'' \<mapsto> ''x'']]
   \<and> fst (snd (MatchGetValues literal_regexp
       [(''a'', \<lparr>Op = MatchExists, Value = []\<rparr>), (''b'', \<lparr>Op = MatchExists, Value = []\<rparr>)]
       [''a'' \<mapsto> ''8'', ''b'' \<mapsto> ''x'']))
     = Some [[''Name'' \<mapsto> ''a'', ''Value'' \<mapsto> ''8''], [''Name'' \<mapsto> ''b'', ''Value'' \<mapsto> ''x'']]
   \<and> fst (snd (MatchGetKeys
       [(''a'', \<lparr>Op = MatchExists, Value = []\<rparr>), (''b'', \<lparr>Op = MatchExists, Value = []\<rparr>)]
       [''a'' \<mapsto> (), ''b'' \<mapsto> ()]))
     = Some [[''Name'' \<mapsto> ''a''], [''Name'' \<mapsto> ''b'']]
   \<and> fst (snd (MatchValueNames literal_regexp \<lparr>Op = MatchInRegexp, Value = [''c'']\<rparr>
       [(''ca'', ''3''), (''x'', ''2''), (''cb'', ''1'')]))
     = Some [[''Name'' \<mapsto> ''ca'', ''Value'' \<mapsto> ''3''], [''Name'' \<mapsto> ''cb'', ''Value'' \<mapsto> ''1'']]
   \<and> fst (snd (MatchKeyNames literal_regexp \<lparr>Op = MatchInRegexp, Value = [''c'']\<rparr>
       [''ca'', ''x'', ''cb'']))
     = Some [[''Name'' \<mapsto> ''ca''], [''Name'' \<mapsto> ''cb'']]
   \<and> sorted (map Name_of [[''Name'' \<mapsto> ''ca''], [''Name'' \<mapsto> ''cb'']])"
proof -
  let ?ex = "\<lparr>Op = MatchExists, Value = []\<rparr>"
  let ?e = "\<lparr>Op = MatchInRegexp, Value = [''c'']\<rparr>"
  let ?m = "[(''b'', ?ex), (''a'', ?ex)]"
  let ?m' = "[(''a'', ?ex), (''b'', ?ex)]"
  let ?vals = "[''a'' \<mapsto> ''8'', ''b'' \<mapsto> ''x'']"
  let ?keys = "[''a'' \<mapsto> (), ''b'' \<mapsto> ()]"
  let ?vs = "[(''cb'', ''1''), (''x'', ''2''), (''ca'', ''3'')]"
  let ?vs' = "[(''ca'', ''3''), (''x'', ''2''), (''cb'', ''1'')]"
  let ?ks = "[''cb'', ''x'', ''ca'']"
  let ?ks' = "[''ca'', ''x'', ''cb'']"
  have hm: "distinct (map fst ?m)" "distinct (map fst ?m')" "set ?m = set ?m'"
    by auto
  have hvs: "distinct (map fst ?vs)" "distinct (map fst ?vs')" "set ?vs = set ?vs'"
    by auto
  have hks: "distinct ?ks" "distinct ?ks'" "set ?ks = set ?ks'"
    by auto
  have 1: "fst (snd (MatchGetValues literal_regexp ?m ?vals))
      = Some [[''Name'' \<mapsto> ''a'', ''Value'' \<mapsto> ''8''], [''Name'' \<mapsto> ''b'', ''Value'' \<mapsto> ''x'']]"
    by (simp add: MatchGetValues_def eval_defs less_Name_def)
  have 2: "fst (snd (MatchGetKeys ?m ?keys)) = Some [[''Name'' \<mapsto> ''a''], [''Name'' \<mapsto> ''b'']]"
    by (simp add: MatchGetKeys_def eval_defs less_Name_def)
  have c: "evaluateMatchExpression literal_regexp ?e True ''cb'' = (True, None)"
    "evaluateMatchExpression literal_regexp ?e True ''x'' = (False, None)"
    "evaluateMatchExpression literal_regexp ?e True ''ca'' = (True, None)"
    by (simp_all add: eval_defs literal_regexp_def is_alnum_def)
  have 3: "fst (snd (MatchValueNames literal_regexp ?e ?vs))
      = Some [[''Name'' \<mapsto> ''ca'', ''Value'' \<mapsto> ''3''], [''Name'' \<mapsto> ''cb'', ''Value'' \<mapsto> ''1'']]"
    by (simp add: MatchValueNames_def c less_Name_def)
  have 4: "fst (snd (MatchKeyNames literal_regexp ?e ?ks))
      = Some [[''Name'' \<mapsto> ''ca''], [''Name'' \<mapsto> ''cb'']]"
    by (simp add: MatchKeyNames_def c less_Name_def)
  show ?thesis
    using matched_elements_sorted_order_independent
      [OF hm hvs hks, of literal_regexp ?vals ?keys ?e] 1 2 3 4
    by simp
qed

text \<open>
  What the two evaluations of C8 share is the list (and the boolean). The error is
  that of the first failing entry in the order of the range, and a non-matching
  entry that comes first hides it.
\<close>

lemma error_depends_on_range_order:
  "MatchGetKeys
      [(''a'', \<lparr>Op = MatchExists, Value = []\<rparr>), (''b'', \<lparr>Op = MatchIn, Value = [''x'']\<rparr>)]
      Map.empty = (False, None, None)
   \<and> MatchGetKeys
      [(''b'', \<lparr>Op = MatchIn, Value = [''x'']\<rparr>), (''a'', \<lparr>Op = MatchExists, Value = []\<rparr>)]
      Map.empty = (False, None, Some (InvalidOpForKeys MatchIn))"
  by (simp add: MatchGetKeys_def eval_defs)

end
